theory Spec2Isabelle
  imports Main "HOL-Library.Word"
begin

section \<open>The transcription component of stt-app (src/src/App.vue)\<close>

text \<open>
  The script block of \<^verbatim>\<open>App.vue\<close> holds five reactive cells and four functions
  that mutate them; the template binds three of the functions to buttons. The
  embedding below follows the script function by function. An \<^verbatim>\<open>async\<close>
  function is cut at its \<^verbatim>\<open>await\<close>: the part before it runs when the function is
  called, the part after it runs when the awaited promise settles, and other handlers
  may run in between.
\<close>

subsection \<open>JavaScript strings\<close>

text \<open>
  A JavaScript string is a sequence of UTF-16 code units. The message literals of the
  source are Cyrillic, so they are written here by their code units.
\<close>

type_synonym jsstring = "16 word list"

definition ascii :: "string \<Rightarrow> jsstring" where
  "ascii cs = map (\<lambda>c. word_of_nat (of_char c)) cs"

text \<open>The literal of line 60 (``Fajl ne vybran'': no file selected).\<close>

definition file_not_selected :: jsstring where
  "file_not_selected =
     [0x424, 0x430, 0x439, 0x43B, 0x20, 0x43D, 0x435, 0x20,
      0x432, 0x44B, 0x431, 0x440, 0x430, 0x43D]"

text \<open>The literal of line 83 (``Neizvestnaya oshibka pri rasshifrovke'': unknown error
  while transcribing).\<close>

definition unknown_error :: jsstring where
  "unknown_error =
     [0x41D, 0x435, 0x438, 0x437, 0x432, 0x435, 0x441, 0x442, 0x43D, 0x430, 0x44F, 0x20,
      0x43E, 0x448, 0x438, 0x431, 0x43A, 0x430, 0x20, 0x43F, 0x440, 0x438, 0x20,
      0x440, 0x430, 0x441, 0x448, 0x438, 0x444, 0x440, 0x43E, 0x432, 0x43A, 0x435]"

text \<open>The fixed part of the template literal of line 86 (``Oshibka pri rasshifrovke: '').\<close>

definition transcribe_error_prefix :: jsstring where
  "transcribe_error_prefix =
     [0x41E, 0x448, 0x438, 0x431, 0x43A, 0x430, 0x20, 0x43F, 0x440, 0x438, 0x20,
      0x440, 0x430, 0x441, 0x448, 0x438, 0x444, 0x440, 0x43E, 0x432, 0x43A, 0x435,
      0x3A, 0x20]"

text \<open>The fixed part of the template literal of line 47 (``Oshibka pri vybore fajla: '').\<close>

definition pick_error_prefix :: jsstring where
  "pick_error_prefix =
     [0x41E, 0x448, 0x438, 0x431, 0x43A, 0x430, 0x20, 0x43F, 0x440, 0x438, 0x20,
      0x432, 0x44B, 0x431, 0x43E, 0x440, 0x435, 0x20, 0x444, 0x430, 0x439, 0x43B, 0x430,
      0x3A, 0x20]"

text \<open>The first argument of \<^verbatim>\<open>console.warn\<close> on line 80 (``Preduprezhdenie:'').\<close>

definition warning_label :: jsstring where
  "warning_label =
     [0x41F, 0x440, 0x435, 0x434, 0x443, 0x43F, 0x440, 0x435, 0x436, 0x434, 0x435,
      0x43D, 0x438, 0x435, 0x3A]"

text \<open>The fallback file name \<^verbatim>\<open>"audio.mp3"\<close> of line 36.\<close>

definition audio_mp3 :: jsstring where
  "audio_mp3 = [0x61, 0x75, 0x64, 0x69, 0x6F, 0x2E, 0x6D, 0x70, 0x33]"

text \<open>
  \<^verbatim>\<open>selected.split(/[/\\]/)\<close>: the string is cut at every slash (0x2F) and backslash
  (0x5C). The result of \<^verbatim>\<open>split\<close> with a pattern that does not match the empty
  string always has at least one element, the empty string for an empty input.
\<close>

definition is_separator :: "16 word \<Rightarrow> bool" where
  "is_separator c = (c = 0x2F \<or> c = 0x5C)"

fun split_separators :: "jsstring \<Rightarrow> jsstring list" where
  "split_separators [] = [[]]"
| "split_separators (c # cs) =
     (if is_separator c then [] # split_separators cs
      else (case split_separators cs of
              [] \<Rightarrow> [[c]]
            | seg # segs \<Rightarrow> (c # seg) # segs))"

text \<open>
  The final segment of a path, said directly rather than through \<^verbatim>\<open>split\<close>: what
  follows the last separator, the whole string when there is none. It is used only to
  state what \<^verbatim>\<open>openFileDialog\<close> computes.
\<close>

definition final_segment :: "jsstring \<Rightarrow> jsstring" where
  "final_segment path = rev (takeWhile (\<lambda>c. \<not> is_separator c) (rev path))"

text \<open>\<^verbatim>\<open>.pop()\<close> on the array that \<^verbatim>\<open>split\<close> returns: its last element.\<close>

definition pop :: "jsstring list \<Rightarrow> jsstring option" where
  "pop segs = (if segs = [] then None else Some (last segs))"

text \<open>\<^verbatim>\<open>x || d\<close> on a value that is a string or \<^verbatim>\<open>undefined\<close>: both the empty
  string and \<^verbatim>\<open>undefined\<close> are falsy and give \<open>d\<close>.\<close>

definition or_else :: "jsstring option \<Rightarrow> jsstring \<Rightarrow> jsstring" where
  "or_else x d = (case x of None \<Rightarrow> d | Some v \<Rightarrow> if v = [] then d else v)"

subsection \<open>The reactive state\<close>

text \<open>
  \<^verbatim>\<open>audioFile\<close> holds an object with the two fields \<^verbatim>\<open>name\<close> and \<^verbatim>\<open>size\<close>,
  or \<^verbatim>\<open>null\<close>. The field \<^verbatim>\<open>size\<close> is called \<open>fsize\<close> here, since \<open>size\<close> is
  a constant of HOL.
\<close>

record File =
  name :: jsstring
  fsize :: nat

record app =
  audioFile :: "File option"
  audioFilePath :: jsstring
  isProcessing :: bool
  transcription :: jsstring
  error :: jsstring

definition initial :: app where
  "initial = \<lparr>audioFile = None, audioFilePath = [], isProcessing = False,
              transcription = [], error = []\<rparr>"

text \<open>\<^verbatim>\<open>audioFileName = computed(() => audioFile.value?.name || "")\<close>\<close>

definition audioFileName :: "app \<Rightarrow> jsstring" where
  "audioFileName s = or_else (map_option name (audioFile s)) []"

subsection \<open>openFileDialog\<close>

text \<open>
  The function awaits the picker first and touches the state only afterwards, so its
  whole effect is a function of how the picker's promise settled: with a path, with
  \<^verbatim>\<open>null\<close> (the dialog was dismissed), or with an exception, of which the handler
  uses only the string conversion \<^verbatim>\<open>${e}\<close>. The test on line 34 is
  \<^verbatim>\<open>selected && typeof selected === "string"\<close>, which the empty string fails too.
\<close>

datatype pick_outcome = Returned "jsstring option" | PickThrew jsstring

definition openFileDialog :: "pick_outcome \<Rightarrow> app \<Rightarrow> app" where
  "openFileDialog outcome s =
     (case outcome of
        Returned None \<Rightarrow> s
      | Returned (Some selected) \<Rightarrow>
          (if selected \<noteq> [] then
             let fileName = or_else (pop (split_separators selected)) audio_mp3
             in s\<lparr>audioFilePath := selected,
                  audioFile := Some \<lparr>name = fileName, fsize = 0\<rparr>,
                  error := [],
                  transcription := []\<rparr>
           else s)
      | PickThrew e \<Rightarrow> s\<lparr>error := pick_error_prefix @ e\<rparr>)"

subsection \<open>removeFile\<close>

definition removeFile :: "app \<Rightarrow> app" where
  "removeFile s = s\<lparr>audioFile := None, audioFilePath := [], transcription := [], error := []\<rparr>"

subsection \<open>transcribeAudio\<close>

text \<open>
  The value the engine call resolves with has the fields \<^verbatim>\<open>text\<close>, \<^verbatim>\<open>success\<close>
  and the optional \<^verbatim>\<open>error\<close>; they carry the prefix \<open>result_\<close> here, as \<open>error\<close>
  is a cell of the state already. The call may also reject; \<open>Rejected e\<close> stands for
  anything the \<^verbatim>\<open>catch\<close> clause of line 85 receives, of which the handler uses only
  the string conversion \<open>e\<close>.
\<close>

record result =
  result_text :: jsstring
  result_success :: bool
  result_error :: "jsstring option"

datatype invoke_outcome = Resolved result | Rejected jsstring

text \<open>
  Lines 58 to 70, up to the \<^verbatim>\<open>await\<close>: the new state, and the \<^verbatim>\<open>filePath\<close>
  argument of the engine call when one is made.
\<close>

definition transcribeAudio_begin :: "app \<Rightarrow> app \<times> jsstring option" where
  "transcribeAudio_begin s =
     (if audioFile s = None \<or> audioFilePath s = [] then
        (s\<lparr>error := file_not_selected\<rparr>, None)
      else
        (s\<lparr>isProcessing := True, error := [], transcription := []\<rparr>,
         Some (audioFilePath s)))"

text \<open>
  Lines 77 to 89, after the \<^verbatim>\<open>await\<close>: the new state, and the argument lists of the
  calls of \<^verbatim>\<open>console.warn\<close> that were made.
\<close>

definition transcribeAudio_settle :: "invoke_outcome \<Rightarrow> app \<Rightarrow> app \<times> jsstring list list" where
  "transcribeAudio_settle outcome s =
     (let (s1, warned) =
        (case outcome of
           Resolved r \<Rightarrow>
             (if result_success r then
                (s\<lparr>transcription := result_text r\<rparr>,
                 case result_error r of
                   None \<Rightarrow> []
                 | Some warning \<Rightarrow> if warning \<noteq> [] then [[warning_label, warning]] else [])
              else
                (s\<lparr>error := or_else (result_error r) unknown_error\<rparr>, []))
         | Rejected e \<Rightarrow> (s\<lparr>error := transcribe_error_prefix @ e\<rparr>, []))
      in (s1\<lparr>isProcessing := False\<rparr>, warned))"

text \<open>One call of the function with nothing else running between its two parts.\<close>

definition transcribeAudio :: "invoke_outcome \<Rightarrow> app \<Rightarrow> app \<times> jsstring list list" where
  "transcribeAudio outcome s =
     (case transcribeAudio_begin s of
        (s1, None) \<Rightarrow> (s1, [])
      | (s1, Some filePath) \<Rightarrow> transcribeAudio_settle outcome s1)"

subsection \<open>The template: which handlers the user can reach\<close>

text \<open>
  The trigger button stands in the \<^verbatim>\<open>v-else\<close> branch of \<^verbatim>\<open>v-if="!audioFile"\<close>
  (line 148) and carries \<^verbatim>\<open>:disabled="isProcessing"\<close> (line 192); the remove button
  stands in the same branch (line 171). A disabled button dispatches no click.
\<close>

definition trigger_enabled :: "app \<Rightarrow> bool" where
  "trigger_enabled s = (audioFile s \<noteq> None \<and> \<not> isProcessing s)"

definition remove_shown :: "app \<Rightarrow> bool" where
  "remove_shown s = (audioFile s \<noteq> None)"

subsection \<open>The component together with its environment\<close>

text \<open>
  Besides the five cells, a run of the component has the engine calls that were made
  and have not settled yet (each with its \<^verbatim>\<open>filePath\<close> argument) and what was
  written to the console.
\<close>

record sys =
  refs :: app
  inflight :: "jsstring list"
  console :: "jsstring list list"

definition start :: sys where
  "start = \<lparr>refs = initial, inflight = [], console = []\<rparr>"

text \<open>
  What can happen: the picker opened by \<^verbatim>\<open>openFileDialog\<close> settles, \<^verbatim>\<open>removeFile\<close>
  is called, \<^verbatim>\<open>transcribeAudio\<close> is called, or the engine call at position \<open>i\<close> of
  the pending ones settles and the rest of its \<^verbatim>\<open>transcribeAudio\<close> runs.
\<close>

datatype event = Pick pick_outcome | Remove | Trigger | Settle nat invoke_outcome

definition step :: "event \<Rightarrow> sys \<Rightarrow> sys" where
  "step e w =
     (case e of
        Pick outcome \<Rightarrow> w\<lparr>refs := openFileDialog outcome (refs w)\<rparr>
      | Remove \<Rightarrow> w\<lparr>refs := removeFile (refs w)\<rparr>
      | Trigger \<Rightarrow>
          (case transcribeAudio_begin (refs w) of
             (s, None) \<Rightarrow> w\<lparr>refs := s\<rparr>
           | (s, Some filePath) \<Rightarrow> w\<lparr>refs := s, inflight := inflight w @ [filePath]\<rparr>)
      | Settle i outcome \<Rightarrow>
          (if i < length (inflight w) then
             (case transcribeAudio_settle outcome (refs w) of
                (s, warned) \<Rightarrow>
                  w\<lparr>refs := s,
                    inflight := take i (inflight w) @ drop (Suc i) (inflight w),
                    console := console w @ warned\<rparr>)
           else w))"

text \<open>The handlers called one after the other, whatever the template shows.\<close>

fun run :: "event list \<Rightarrow> sys \<Rightarrow> sys" where
  "run [] w = w"
| "run (e # es) w = run es (step e w)"

text \<open>
  An event is offered when it can happen through the rendered page: a click needs its
  button to be there and enabled, a call can only settle when it is pending. The picker
  may settle in any state, as the dialog was opened some time before.
\<close>

definition offered :: "sys \<Rightarrow> event \<Rightarrow> bool" where
  "offered w e =
     (case e of
        Pick outcome \<Rightarrow> True
      | Remove \<Rightarrow> remove_shown (refs w)
      | Trigger \<Rightarrow> trigger_enabled (refs w)
      | Settle i outcome \<Rightarrow> i < length (inflight w))"

text \<open>A run through the page: \<open>None\<close> as soon as an event is not offered.\<close>

fun ui_run :: "event list \<Rightarrow> sys \<Rightarrow> sys option" where
  "ui_run [] w = Some w"
| "ui_run (e # es) w = (if offered w e then ui_run es (step e w) else None)"

text \<open>The state of the spec's scenario: \<^verbatim>\<open>/tmp/song.mp3\<close> has been picked.\<close>

definition song :: jsstring where
  "song = ascii ''/tmp/song.mp3''"

definition picked :: app where
  "picked = openFileDialog (Returned (Some song)) initial"

section \<open>Properties\<close>

subsection \<open>Helper facts\<close>

lemma split_separators_nonempty: "split_separators cs \<noteq> []"
  by (induction cs) (auto split: list.splits)

lemma split_separators_plain:
  "\<forall>c \<in> set cs. \<not> is_separator c \<Longrightarrow> split_separators cs = [cs]"
  by (induction cs) auto

lemma split_separators_cut:
  "\<exists>c \<in> set cs. is_separator c \<Longrightarrow> tl (split_separators cs) \<noteq> []"
proof (induction cs)
  case Nil
  then show ?case by simp
next
  case (Cons c cs)
  show ?case
  proof (cases "is_separator c")
    case True
    then show ?thesis by (simp add: split_separators_nonempty)
  next
    case False
    with Cons.prems have "\<exists>c \<in> set cs. is_separator c" by auto
    from Cons.IH [OF this] False show ?thesis
      by (auto split: list.splits)
  qed
qed

text \<open>The last piece of the split is what follows the last separator.\<close>

lemma last_split_separators:
  "last (split_separators cs) = final_segment cs"
  unfolding final_segment_def
proof (induction cs)
  case Nil
  then show ?case by simp
next
  case (Cons c cs)
  show ?case
  proof (cases "is_separator c")
    case True
    then show ?thesis
      using Cons.IH by (simp add: split_separators_nonempty takeWhile_append)
  next
    case False
    show ?thesis
    proof (cases "\<exists>d \<in> set cs. is_separator d")
      case True
      from split_separators_cut [OF True] obtain seg seg' segs
        where "split_separators cs = seg # seg' # segs"
        by (cases "split_separators cs"; cases "tl (split_separators cs)") auto
      with True False Cons.IH show ?thesis
        by (auto simp: takeWhile_append)
    next
      case no_cut: False
      then have "split_separators cs = [cs]"
        by (intro split_separators_plain) auto
      with no_cut False show ?thesis
        by (auto simp: takeWhile_append)
    qed
  qed
qed

lemma audio_mp3_nonempty: "audio_mp3 \<noteq> []"
  by (simp add: audio_mp3_def)

lemma file_not_selected_nonempty: "file_not_selected \<noteq> []"
  by (simp add: file_not_selected_def)

lemma unknown_error_nonempty: "unknown_error \<noteq> []"
  by (simp add: unknown_error_def)

lemma transcribe_error_prefix_nonempty: "transcribe_error_prefix \<noteq> []"
  by (simp add: transcribe_error_prefix_def)

lemma song_nonempty: "song \<noteq> []"
  by (simp add: song_def ascii_def)

lemma picked_eq:
  "picked = \<lparr>audioFile = Some \<lparr>name = ascii ''song.mp3'', fsize = 0\<rparr>, audioFilePath = song,
             isProcessing = False, transcription = [], error = []\<rparr>"
  by (simp add: picked_def openFileDialog_def initial_def song_def ascii_def or_else_def
      pop_def is_separator_def)

lemma pick_song: "openFileDialog (Returned (Some song)) initial = picked"
  by (simp add: picked_def)

lemma pick_dismissed: "openFileDialog (Returned None) s = s"
  by (simp add: openFileDialog_def)

lemma step_keeps_single_flight:
  assumes "offered w e"
    and "length (inflight w) \<le> 1"
    and "isProcessing (refs w) \<longleftrightarrow> inflight w \<noteq> []"
  shows "length (inflight (step e w)) \<le> 1 \<and>
         (isProcessing (refs (step e w)) \<longleftrightarrow> inflight (step e w) \<noteq> [])"
proof (cases e)
  case (Pick outcome)
  with assms show ?thesis
    by (auto simp: step_def openFileDialog_def Let_def split: pick_outcome.splits option.splits)
next
  case Remove
  with assms show ?thesis
    by (simp add: step_def removeFile_def)
next
  case Trigger
  with assms have "inflight w = []" and "\<not> isProcessing (refs w)"
    by (simp_all add: offered_def trigger_enabled_def)
  with Trigger show ?thesis
    by (simp add: step_def transcribeAudio_begin_def)
next
  case (Settle i outcome)
  with assms have "i < length (inflight w)"
    by (simp add: offered_def)
  with assms(2) have "i = 0" and "drop (Suc 0) (inflight w) = []"
    by simp_all
  with Settle \<open>i < length (inflight w)\<close> show ?thesis
    by (simp add: step_def transcribeAudio_settle_def split: prod.splits)
qed

lemma ui_run_keeps_single_flight:
  assumes "ui_run es w = Some w'"
    and "length (inflight w) \<le> 1"
    and "isProcessing (refs w) \<longleftrightarrow> inflight w \<noteq> []"
  shows "length (inflight w') \<le> 1 \<and> (isProcessing (refs w') \<longleftrightarrow> inflight w' \<noteq> [])"
  using assms
proof (induction es arbitrary: w)
  case Nil
  then show ?case by simp
next
  case (Cons e es)
  from Cons.prems(1) have off: "offered w e" and rest: "ui_run es (step e w) = Some w'"
    by (simp_all split: if_splits)
  from step_keeps_single_flight [OF off Cons.prems(2) Cons.prems(3)]
  show ?case
    using Cons.IH [OF rest] by blast
qed

subsection \<open>One request at a time\<close>

text \<open>
  C1, as the code has it. Along every run through the page from the initial state, at
  most one engine call is pending, \<^verbatim>\<open>isProcessing\<close> is true exactly while one is, and
  while one is pending the trigger is not offered: the button is disabled by the
  template's binding \<^verbatim>\<open>:disabled="isProcessing"\<close>.
\<close>

theorem single_flight_through_page:
  assumes "ui_run es start = Some w"
  shows "length (inflight w) \<le> 1 \<and>
         (isProcessing (refs w) \<longleftrightarrow> inflight w \<noteq> []) \<and>
         (inflight w \<noteq> [] \<longrightarrow> \<not> offered w Trigger)"
proof -
  from ui_run_keeps_single_flight [OF assms]
  have inv: "length (inflight w) \<le> 1 \<and> (isProcessing (refs w) \<longleftrightarrow> inflight w \<noteq> [])"
    by (simp add: start_def initial_def)
  then show ?thesis
    by (simp add: offered_def trigger_enabled_def)
qed

theorem single_flight_through_page_witness:
  "ui_run [Pick (Returned (Some song)), Trigger, Pick (Returned None)] start =
     Some \<lparr>refs = picked\<lparr>isProcessing := True\<rparr>, inflight = [song], console = []\<rparr> \<and>
   \<not> offered \<lparr>refs = picked\<lparr>isProcessing := True\<rparr>, inflight = [song], console = []\<rparr> Trigger"
proof -
  have r: "ui_run [Pick (Returned (Some song)), Trigger, Pick (Returned None)] start =
     Some \<lparr>refs = picked\<lparr>isProcessing := True\<rparr>, inflight = [song], console = []\<rparr>"
    using song_nonempty
    by (simp add: offered_def step_def start_def pick_song pick_dismissed picked_eq
        transcribeAudio_begin_def trigger_enabled_def)
  from single_flight_through_page [OF r] r show ?thesis
    by simp
qed

text \<open>
  C1, as stated, fails: \<^verbatim>\<open>transcribeAudio\<close> tests only the selection. Called in the
  state where \<^verbatim>\<open>/tmp/song.mp3\<close> is picked and a call is pending, it makes a second
  engine call, and two calls are pending at once.
\<close>

theorem trigger_unguarded_counterexample:
  "isProcessing (fst (transcribeAudio_begin picked)) \<and>
   snd (transcribeAudio_begin (fst (transcribeAudio_begin picked))) = Some song \<and>
   inflight (run [Pick (Returned (Some song)), Trigger, Trigger] start) = [song, song]"
  using song_nonempty
  by (simp add: step_def start_def pick_song picked_eq transcribeAudio_begin_def)

subsection \<open>Triggering without a selection\<close>

text \<open>
  C2. When \<^verbatim>\<open>audioFile\<close> is null or the path is empty, \<^verbatim>\<open>transcribeAudio\<close> returns
  before the engine call: no call is made, the only cell that changes is \<^verbatim>\<open>error\<close>,
  which holds the (non-empty) validation message; \<^verbatim>\<open>isProcessing\<close> and
  \<^verbatim>\<open>transcription\<close> are as before, and the pending calls of the run are the same.
\<close>

theorem trigger_without_selection:
  assumes "audioFile s = None \<or> audioFilePath s = []"
  shows "transcribeAudio_begin s = (s\<lparr>error := file_not_selected\<rparr>, None) \<and>
         isProcessing (fst (transcribeAudio_begin s)) = isProcessing s \<and>
         transcription (fst (transcribeAudio_begin s)) = transcription s \<and>
         file_not_selected \<noteq> [] \<and>
         (refs w = s \<longrightarrow> step Trigger w = w\<lparr>refs := s\<lparr>error := file_not_selected\<rparr>\<rparr>)"
  using assms
  by (auto simp: transcribeAudio_begin_def step_def file_not_selected_nonempty)

theorem trigger_without_selection_witness:
  "transcribeAudio_begin initial = (initial\<lparr>error := file_not_selected\<rparr>, None) \<and>
   \<not> isProcessing (fst (transcribeAudio_begin initial)) \<and>
   transcription (fst (transcribeAudio_begin initial)) = [] \<and>
   file_not_selected \<noteq> [] \<and>
   step Trigger start = start\<lparr>refs := initial\<lparr>error := file_not_selected\<rparr>\<rparr>"
proof -
  have h: "audioFile initial = None \<or> audioFilePath initial = []"
    by (simp add: initial_def)
  from trigger_without_selection [OF h, of start] show ?thesis
    by (simp add: start_def initial_def)
qed

subsection \<open>How the engine's answer is stored\<close>

text \<open>
  C3. When the engine call resolves with the success flag set, the rest of
  \<^verbatim>\<open>transcribeAudio\<close> stores the text payload as it is in \<^verbatim>\<open>transcription\<close>, clears
  \<^verbatim>\<open>isProcessing\<close> and changes nothing else, whatever the diagnostic field holds; a
  non-empty diagnostic goes to \<^verbatim>\<open>console.warn\<close> and nowhere else. For a whole call
  on a state with a selection, the result is that state with the text stored and no
  error message.
\<close>

theorem success_stores_text_verbatim:
  assumes "result_success r"
  shows "fst (transcribeAudio_settle (Resolved r) s) =
           s\<lparr>transcription := result_text r, isProcessing := False\<rparr> \<and>
         snd (transcribeAudio_settle (Resolved r) s) =
           (case result_error r of
              None \<Rightarrow> []
            | Some m \<Rightarrow> if m = [] then [] else [[warning_label, m]]) \<and>
         (audioFile s \<noteq> None \<and> audioFilePath s \<noteq> [] \<longrightarrow>
            fst (transcribeAudio (Resolved r) s) =
              s\<lparr>isProcessing := False, error := [], transcription := result_text r\<rparr>)"
  using assms
  by (auto simp: transcribeAudio_settle_def transcribeAudio_def transcribeAudio_begin_def
      split: option.splits)

theorem success_stores_text_verbatim_witness:
  "transcribeAudio
     (Resolved \<lparr>result_text = ascii ''hello world'', result_success = True,
                result_error = Some (ascii ''slow'')\<rparr>) picked =
     (picked\<lparr>transcription := ascii ''hello world''\<rparr>, [[warning_label, ascii ''slow'']])"
proof -
  let ?r = "\<lparr>result_text = ascii ''hello world'', result_success = True,
             result_error = Some (ascii ''slow'')\<rparr>"
  have h: "result_success ?r" by simp
  have sel: "audioFile picked \<noteq> None \<and> audioFilePath picked \<noteq> []"
    using song_nonempty by (simp add: picked_eq)
  have w: "snd (transcribeAudio (Resolved ?r) picked) = [[warning_label, ascii ''slow'']]"
    using song_nonempty
    by (simp add: transcribeAudio_def transcribeAudio_begin_def transcribeAudio_settle_def
        picked_eq ascii_def)
  from success_stores_text_verbatim [OF h, of picked] sel
  have "fst (transcribeAudio (Resolved ?r) picked) =
          picked\<lparr>isProcessing := False, error := [], transcription := ascii ''hello world''\<rparr>"
    by simp
  then have "fst (transcribeAudio (Resolved ?r) picked) =
          picked\<lparr>transcription := ascii ''hello world''\<rparr>"
    by (simp add: picked_eq)
  with w show ?thesis
    by (simp add: prod_eq_iff)
qed

text \<open>
  C4, as the code has it. When the engine call resolves with the success flag unset,
  \<^verbatim>\<open>error\<close> becomes the diagnostic message if there is one and it is not the empty
  string, and the fallback message if the diagnostic is absent or empty;
  \<^verbatim>\<open>isProcessing\<close> is cleared and \<^verbatim>\<open>transcription\<close> is untouched.
\<close>

theorem failure_stores_diagnostic_or_fallback:
  assumes "\<not> result_success r"
  shows "(result_error r = Some m \<and> m \<noteq> [] \<longrightarrow>
            fst (transcribeAudio_settle (Resolved r) s) = s\<lparr>error := m, isProcessing := False\<rparr>) \<and>
         (result_error r = None \<or> result_error r = Some [] \<longrightarrow>
            fst (transcribeAudio_settle (Resolved r) s) =
              s\<lparr>error := unknown_error, isProcessing := False\<rparr>) \<and>
         snd (transcribeAudio_settle (Resolved r) s) = []"
  using assms
  by (auto simp: transcribeAudio_settle_def or_else_def)

theorem failure_stores_diagnostic_or_fallback_witness:
  "fst (transcribeAudio_settle
     (Resolved \<lparr>result_text = [], result_success = False,
                result_error = Some (ascii ''model not found'')\<rparr>)
     (picked\<lparr>isProcessing := True\<rparr>)) = picked\<lparr>error := ascii ''model not found''\<rparr> \<and>
   fst (transcribeAudio_settle
     (Resolved \<lparr>result_text = [], result_success = False, result_error = None\<rparr>)
     (picked\<lparr>isProcessing := True\<rparr>)) = picked\<lparr>error := unknown_error\<rparr>"
proof -
  let ?given = "\<lparr>result_text = [], result_success = False,
                 result_error = Some (ascii ''model not found'')\<rparr>"
  let ?absent = "\<lparr>result_text = [], result_success = False, result_error = None\<rparr>"
  have g: "\<not> result_success ?given" and a: "\<not> result_success ?absent"
    by simp_all
  have ne: "ascii ''model not found'' \<noteq> []"
    by (simp add: ascii_def)
  from failure_stores_diagnostic_or_fallback
         [OF g, of "ascii ''model not found''" "picked\<lparr>isProcessing := True\<rparr>"]
       failure_stores_diagnostic_or_fallback [OF a, of _ "picked\<lparr>isProcessing := True\<rparr>"]
       ne
  show ?thesis
    by (simp add: picked_eq)
qed

text \<open>
  C4, as stated, fails when the diagnostic is present and is the empty string: after a
  whole call on the state where \<^verbatim>\<open>/tmp/song.mp3\<close> is picked, \<^verbatim>\<open>error\<close> is the
  fallback message, which is not the diagnostic.
\<close>

theorem empty_diagnostic_counterexample:
  "error (fst (transcribeAudio
     (Resolved \<lparr>result_text = [], result_success = False, result_error = Some []\<rparr>) picked))
     = unknown_error \<and>
   unknown_error \<noteq> []"
  using song_nonempty
  by (simp add: transcribeAudio_def transcribeAudio_begin_def transcribeAudio_settle_def
      picked_eq or_else_def unknown_error_nonempty)

text \<open>
  C5. When the engine call rejects, \<^verbatim>\<open>error\<close> becomes the fixed prefix followed by
  the string conversion of what it rejected with, which is never empty;
  \<^verbatim>\<open>isProcessing\<close> is cleared and nothing else changes. For a whole call on a state
  with a selection, the result is that state with this message and no text.
\<close>

theorem rejection_stores_description:
  "fst (transcribeAudio_settle (Rejected e) s) =
     s\<lparr>error := transcribe_error_prefix @ e, isProcessing := False\<rparr> \<and>
   error (fst (transcribeAudio_settle (Rejected e) s)) \<noteq> [] \<and>
   (audioFile s \<noteq> None \<and> audioFilePath s \<noteq> [] \<longrightarrow>
      fst (transcribeAudio (Rejected e) s) =
        s\<lparr>isProcessing := False, transcription := [], error := transcribe_error_prefix @ e\<rparr>)"
  by (auto simp: transcribeAudio_settle_def transcribeAudio_def transcribeAudio_begin_def
      transcribe_error_prefix_nonempty)

theorem rejection_stores_description_witness:
  "fst (transcribeAudio (Rejected (ascii ''not invokable'')) picked) =
     picked\<lparr>error := transcribe_error_prefix @ ascii ''not invokable''\<rparr> \<and>
   error (fst (transcribeAudio_settle (Rejected (ascii ''not invokable'')) picked)) \<noteq> []"
proof -
  have sel: "audioFile picked \<noteq> None \<and> audioFilePath picked \<noteq> []"
    using song_nonempty by (simp add: picked_eq)
  from rejection_stores_description [of "ascii ''not invokable''" picked] sel
  show ?thesis
    by (simp add: picked_eq transcribe_error_prefix_nonempty)
qed

text \<open>
  C6. However the engine call settles (resolved with success, resolved with failure,
  or rejected), the rest of \<^verbatim>\<open>transcribeAudio\<close> leaves \<^verbatim>\<open>isProcessing\<close> false and
  the selection as it was. So if there is a selection, the trigger button is enabled
  again and the next call of \<^verbatim>\<open>transcribeAudio\<close> makes an engine call for it.
\<close>

theorem settled_call_reenables_trigger:
  "isProcessing (fst (transcribeAudio_settle outcome s)) = False \<and>
   audioFile (fst (transcribeAudio_settle outcome s)) = audioFile s \<and>
   audioFilePath (fst (transcribeAudio_settle outcome s)) = audioFilePath s \<and>
   (audioFile s \<noteq> None \<and> audioFilePath s \<noteq> [] \<longrightarrow>
      trigger_enabled (fst (transcribeAudio_settle outcome s)) \<and>
      snd (transcribeAudio_begin (fst (transcribeAudio_settle outcome s))) =
        Some (audioFilePath s))"
  by (cases outcome)
     (auto simp: transcribeAudio_settle_def transcribeAudio_begin_def trigger_enabled_def)

theorem settled_call_reenables_trigger_witness:
  "\<not> trigger_enabled (picked\<lparr>isProcessing := True\<rparr>) \<and>
   trigger_enabled (fst (transcribeAudio_settle
     (Resolved \<lparr>result_text = ascii ''test'', result_success = True, result_error = None\<rparr>)
     (picked\<lparr>isProcessing := True\<rparr>))) \<and>
   snd (transcribeAudio_begin (fst (transcribeAudio_settle
     (Resolved \<lparr>result_text = ascii ''test'', result_success = True, result_error = None\<rparr>)
     (picked\<lparr>isProcessing := True\<rparr>)))) = Some song"
proof -
  let ?s = "picked\<lparr>isProcessing := True\<rparr>"
  have sel: "audioFile ?s \<noteq> None \<and> audioFilePath ?s \<noteq> []"
    using song_nonempty by (simp add: picked_eq)
  have busy: "\<not> trigger_enabled ?s"
    by (simp add: trigger_enabled_def)
  from settled_call_reenables_trigger
         [of "Resolved \<lparr>result_text = ascii ''test'', result_success = True, result_error = None\<rparr>" ?s]
       sel busy
  show ?thesis
    by (simp add: picked_eq)
qed

text \<open>
  C10. With the success flag unset, a diagnostic that is present but empty gives the
  same result as an absent one, namely the fallback message in \<^verbatim>\<open>error\<close>; hence
  after an engine-reported failure \<^verbatim>\<open>error\<close> is never empty.
\<close>

theorem empty_diagnostic_like_absent:
  assumes "\<not> result_success r"
  shows "transcribeAudio_settle (Resolved (r\<lparr>result_error := Some []\<rparr>)) s =
           transcribeAudio_settle (Resolved (r\<lparr>result_error := None\<rparr>)) s \<and>
         error (fst (transcribeAudio_settle (Resolved (r\<lparr>result_error := Some []\<rparr>)) s)) =
           unknown_error \<and>
         error (fst (transcribeAudio_settle (Resolved r) s)) \<noteq> []"
  using assms
  by (auto simp: transcribeAudio_settle_def or_else_def unknown_error_nonempty
      split: option.splits)

theorem empty_diagnostic_like_absent_witness:
  "error (fst (transcribeAudio_settle
     (Resolved \<lparr>result_text = [], result_success = False, result_error = Some []\<rparr>)
     (picked\<lparr>isProcessing := True\<rparr>))) = unknown_error \<and>
   error (fst (transcribeAudio_settle
     (Resolved \<lparr>result_text = [], result_success = False, result_error = Some []\<rparr>)
     (picked\<lparr>isProcessing := True\<rparr>))) \<noteq> []"
proof -
  let ?r = "\<lparr>result_text = [], result_success = False, result_error = Some []\<rparr>"
  have h: "\<not> result_success ?r" by simp
  have same: "?r\<lparr>result_error := Some []\<rparr> = ?r" by simp
  note at_r = empty_diagnostic_like_absent [OF h, of "picked\<lparr>isProcessing := True\<rparr>"]
  from at_r [unfolded same] show ?thesis
    by blast
qed

subsection \<open>Picking and removing a file\<close>

text \<open>
  C7. When the picker returns a path (a non-empty string), whatever the state was, the
  path becomes \<^verbatim>\<open>audioFilePath\<close>, \<^verbatim>\<open>audioFile\<close> becomes an object whose name is
  the part of the path after its last slash or backslash (\<^verbatim>\<open>"audio.mp3"\<close> when
  that part is empty) and whose size is 0, and \<^verbatim>\<open>transcription\<close> and \<^verbatim>\<open>error\<close>
  are emptied. No other cell changes, and the displayed name \<^verbatim>\<open>audioFileName\<close> is
  that name.
\<close>

theorem pick_replaces_selection:
  assumes "path \<noteq> []"
  shows "openFileDialog (Returned (Some path)) s =
           s\<lparr>audioFilePath := path,
             audioFile := Some \<lparr>name =
               (if final_segment path = [] then audio_mp3 else final_segment path),
               fsize = 0\<rparr>,
             error := [], transcription := []\<rparr> \<and>
         audioFileName (openFileDialog (Returned (Some path)) s) =
           (if final_segment path = [] then audio_mp3 else final_segment path)"
  using assms
  by (simp add: openFileDialog_def or_else_def pop_def split_separators_nonempty
      last_split_separators Let_def audioFileName_def audio_mp3_nonempty)

theorem pick_replaces_selection_witness:
  "openFileDialog (Returned (Some song))
     \<lparr>audioFile = Some \<lparr>name = ascii ''old.wav'', fsize = 0\<rparr>,
      audioFilePath = ascii ''/home/old.wav'', isProcessing = False,
      transcription = ascii ''stale'', error = ascii ''stale error''\<rparr> =
     \<lparr>audioFile = Some \<lparr>name = ascii ''song.mp3'', fsize = 0\<rparr>, audioFilePath = song,
      isProcessing = False, transcription = [], error = []\<rparr>"
  using pick_replaces_selection [OF song_nonempty,
    of "\<lparr>audioFile = Some \<lparr>name = ascii ''old.wav'', fsize = 0\<rparr>,
      audioFilePath = ascii ''/home/old.wav'', isProcessing = False,
      transcription = ascii ''stale'', error = ascii ''stale error''\<rparr>"]
  by (simp add: song_def ascii_def is_separator_def final_segment_def)

text \<open>
  C8. When the picker is dismissed (it returns \<^verbatim>\<open>null\<close>), \<^verbatim>\<open>openFileDialog\<close>
  changes no cell: selection, transcription and error message are as before, and no
  message is produced.
\<close>

theorem pick_cancelled_changes_nothing:
  "openFileDialog (Returned None) s = s"
  by (simp add: openFileDialog_def)

theorem pick_cancelled_changes_nothing_witness:
  "openFileDialog (Returned None) (picked\<lparr>transcription := ascii ''test''\<rparr>) =
     picked\<lparr>transcription := ascii ''test''\<rparr>"
  using pick_cancelled_changes_nothing [of "picked\<lparr>transcription := ascii ''test''\<rparr>"]
  by simp

text \<open>
  C9. \<^verbatim>\<open>removeFile\<close> sets the selection to absent (\<^verbatim>\<open>audioFile\<close> null, the path
  empty) and empties \<^verbatim>\<open>transcription\<close> and \<^verbatim>\<open>error\<close>, in every state, leaving
  \<^verbatim>\<open>isProcessing\<close> as it is; calling it twice gives the same state as calling it once.
\<close>

theorem removeFile_resets_and_idempotent:
  "audioFile (removeFile s) = None \<and>
   audioFilePath (removeFile s) = [] \<and>
   transcription (removeFile s) = [] \<and>
   error (removeFile s) = [] \<and>
   isProcessing (removeFile s) = isProcessing s \<and>
   removeFile (removeFile s) = removeFile s"
  by (simp add: removeFile_def)

theorem removeFile_resets_and_idempotent_witness:
  "removeFile (picked\<lparr>transcription := ascii ''test''\<rparr>) = initial \<and>
   removeFile (removeFile (picked\<lparr>transcription := ascii ''test''\<rparr>)) = initial"
proof -
  have r: "removeFile (picked\<lparr>transcription := ascii ''test''\<rparr>) = initial"
    by (simp add: removeFile_def picked_eq initial_def)
  from removeFile_resets_and_idempotent [of "picked\<lparr>transcription := ascii ''test''\<rparr>"] r
  show ?thesis
    by simp
qed

end
